theory Spec2Isabelle
  imports Main "HOL-Library.Word"
begin

section \<open>Go values used by package ring\<close>

text \<open>
  The package under verification is \<^verbatim>\<open>ring\<close> of gache.  Two drafts of it are in the
  repository: \<^verbatim>\<open>src/pkg/ring/buffer.go\<close>, whose \<^verbatim>\<open>Add\<close> copies a block's packed bytes
  into the buffer, and a second draft (the unnamed Go file) in which \<^verbatim>\<open>Write\<close> frames a
  payload with an 8-byte length header and hands both to an internal \<^verbatim>\<open>write\<close>.
  \<^verbatim>\<open>NewRingBuffer\<close> and \<^verbatim>\<open>Get\<close> are the same text in both drafts.

  Conventions of the embedding.
  \<^item> A byte is an \<open>8 word\<close>; a \<^verbatim>\<open>[]byte\<close> is a list of bytes whose capacity equals its
    length (what \<^verbatim>\<open>make\<close> and a slice literal give).
  \<^item> Go's \<^verbatim>\<open>int\<close> is modelled by \<open>int\<close>.  Positions and slice lengths are bounded by the
    address space, so a sum of two of them never leaves the 64-bit range; the three
    length fields of a \<^verbatim>\<open>Block\<close> are free integers, so their sum wraps (\<open>int64\<close>).
  \<^item> A run-time panic (slice bounds out of range, negative \<^verbatim>\<open>make\<close> length, integer
    division by zero) is the value \<open>RuntimePanic\<close>.
  \<^item> Every operation returns the state it leaves behind next to its result, also when
    it returns an error or panics.
\<close>

type_synonym byte = "8 word"

datatype error = InsufficientBufferSpace | BufferrOutOfRange | RuntimePanic

text \<open>The constant \<^verbatim>\<open>BlockHeaderLenSize = 8\<close>.\<close>

definition BlockHeaderLenSize :: int where
  "BlockHeaderLenSize = 8"

text \<open>Two's complement wrap-around of a 64-bit \<^verbatim>\<open>int\<close>.\<close>

definition int64 :: "int \<Rightarrow> int" where
  "int64 x = (x + 2 ^ 63) mod 2 ^ 64 - 2 ^ 63"

text \<open>
  Go's \<^verbatim>\<open>a % b\<close>: the remainder of the division truncated towards zero (its sign is the
  dividend's); a zero divisor panics.
\<close>

definition go_rem :: "int \<Rightarrow> int \<Rightarrow> int option" where
  "go_rem a b = (if b = 0 then None else Some (sgn a * (\<bar>a\<bar> mod \<bar>b\<bar>)))"

text \<open>
  Slice expressions \<^verbatim>\<open>s[lo:]\<close>, \<^verbatim>\<open>s[:hi]\<close> and \<^verbatim>\<open>s[lo:hi]\<close>; \<open>None\<close> is the panic
  ``slice bounds out of range''.
\<close>

definition slice_from :: "'a list \<Rightarrow> int \<Rightarrow> 'a list option" where
  "slice_from s lo =
     (if 0 \<le> lo \<and> lo \<le> int (length s) then Some (drop (nat lo) s) else None)"

definition slice_to :: "'a list \<Rightarrow> int \<Rightarrow> 'a list option" where
  "slice_to s hi =
     (if 0 \<le> hi \<and> hi \<le> int (length s) then Some (take (nat hi) s) else None)"

definition slice :: "'a list \<Rightarrow> int \<Rightarrow> int \<Rightarrow> 'a list option" where
  "slice s lo hi =
     (if 0 \<le> lo \<and> lo \<le> hi \<and> hi \<le> int (length s)
      then Some (take (nat (hi - lo)) (drop (nat lo) s)) else None)"

text \<open>
  The builtin \<^verbatim>\<open>copy(dst[off:], src)\<close> seen from \<open>dst\<close>: it overwrites
  \<open>min (length dst - off) (length src)\<close> elements starting at \<open>off\<close> and never grows \<open>dst\<close>.
\<close>

definition copy_into :: "'a list \<Rightarrow> nat \<Rightarrow> 'a list \<Rightarrow> 'a list" where
  "copy_into dst off src =
     take off dst @ take (length dst - off) src @ drop (off + length src) dst"

text \<open>
  The statement \<^verbatim>\<open>copy(dst[lo:], src)\<close> with its operands evaluated first: the
  destination slice, then the source slice (\<open>None\<close> when its slice expression panicked).
\<close>

definition copy_at :: "'a list \<Rightarrow> int \<Rightarrow> 'a list option \<Rightarrow> 'a list option" where
  "copy_at dst lo src =
     (if 0 \<le> lo \<and> lo \<le> int (length dst)
      then (case src of None \<Rightarrow> None | Some s \<Rightarrow> Some (copy_into dst (nat lo) s))
      else None)"

text \<open>
  \<^verbatim>\<open>binary.LittleEndian.PutUint64(header, v)\<close> on a fresh 8-byte slice:
  \<^verbatim>\<open>header[i] = byte(v >> (8*i))\<close>.
\<close>

definition PutUint64 :: "64 word \<Rightarrow> byte list" where
  "PutUint64 v = map (\<lambda>i. ucast (drop_bit (8 * i) v)) [0..<8]"

section \<open>The data model\<close>

text \<open>
  \<^verbatim>\<open>type Block struct\<close> of \<^verbatim>\<open>buffer.go\<close>; \<open>Len\<close> is \<^verbatim>\<open>Block.Len\<close>, which leaves
  \<open>CreatedAt\<close> out.
\<close>

record Block =
  hashedKeyLen :: int
  rawKeyLen :: int
  dataLen :: int
  AllData :: "byte list"
  CreatedAt :: int

definition Len :: "Block \<Rightarrow> int" where
  "Len b = int64 (hashedKeyLen b + rawKeyLen b + dataLen b)"

text \<open>
  \<^verbatim>\<open>type RingBuffer struct\<close>.  The field \<^verbatim>\<open>size\<close> is \<open>size_rb\<close> here; \<open>tempoPosition\<close>
  exists in the second draft only.  A Go map value is \<open>None\<close> when it is \<^verbatim>\<open>nil\<close>.
\<close>

record RingBuffer =
  buffer :: "byte list"
  size_rb :: int
  currPosition :: int
  tempoPosition :: int
  blockIdx :: "(int \<times> int) list option"
  timeIdx :: "(int \<times> int) list option"

section \<open>Operations\<close>

text \<open>
  The largest number of bytes that \<^verbatim>\<open>make\<close> accepts.  It is a constant of the Go
  runtime, not of the repository: \<^verbatim>\<open>maxAlloc = 1 << 48\<close> on the 64-bit platforms that
  this model assumes.  \<^verbatim>\<open>runtime.makeslice\<close> panics with ``makeslice: len out of range''
  when the length is negative or the memory asked for is above \<^verbatim>\<open>maxAlloc\<close>.
\<close>

definition maxAlloc :: int where
  "maxAlloc = 2 ^ 48"

text \<open>
  \<^verbatim>\<open>NewRingBuffer(size)\<close>: \<^verbatim>\<open>make([]byte, size)\<close> panics on a length that is negative or
  above \<open>maxAlloc\<close>; the fields the composite literal does not name get their zero
  values.  An allocation inside the range that the machine cannot serve ends the whole
  process (``fatal error: out of memory''); that is no result of the function and is
  not modelled.
\<close>

definition NewRingBuffer :: "int \<Rightarrow> error + RingBuffer" where
  "NewRingBuffer n =
     (if n < 0 \<or> maxAlloc < n then Inl RuntimePanic
      else Inr \<lparr> buffer = replicate (nat n) 0, size_rb = n, currPosition = 0,
                 tempoPosition = 0, blockIdx = None, timeIdx = None \<rparr>)"

text \<open>\<^verbatim>\<open>func (r *RingBuffer) Add(block *Block) error\<close> of \<^verbatim>\<open>buffer.go\<close>.\<close>

definition Add :: "RingBuffer \<Rightarrow> Block \<Rightarrow> error option \<times> RingBuffer" where
  "Add r block =
     (let blockLen = Len block in
      if blockLen > size_rb r then (Some InsufficientBufferSpace, r)
      else
        case go_rem blockLen (size_rb r) of
          None \<Rightarrow> (Some RuntimePanic, r)
        | Some m \<Rightarrow>
            let targetPos = currPosition r + m in
            if targetPos < currPosition r then
              (case copy_at (buffer r) (currPosition r)
                      (slice_to (AllData block) (size_rb r - currPosition r)) of
                 None \<Rightarrow> (Some RuntimePanic, r)
               | Some buf1 \<Rightarrow>
                   (case copy_at buf1 0
                           (slice_from (AllData block) (size_rb r - currPosition r)) of
                      None \<Rightarrow> (Some RuntimePanic, r\<lparr>buffer := buf1\<rparr>)
                    | Some buf2 \<Rightarrow>
                        (None, r\<lparr>buffer := buf2, currPosition := targetPos\<rparr>)))
            else
              (case copy_at (buffer r) (currPosition r) (Some (AllData block)) of
                 None \<Rightarrow> (Some RuntimePanic, r)
               | Some buf1 \<Rightarrow> (None, r\<lparr>buffer := buf1, currPosition := targetPos\<rparr>)))"

text \<open>
  \<^verbatim>\<open>func (r *RingBuffer) write(data []byte) (int, error)\<close> of the second draft, named
  \<open>write_rb\<close> here (the lower-case name is a keyword of Isabelle).
\<close>

definition write_rb :: "RingBuffer \<Rightarrow> byte list \<Rightarrow> (int \<times> error option) \<times> RingBuffer" where
  "write_rb r data =
     (let dataLen = int (length data) + BlockHeaderLenSize in
      if dataLen > size_rb r then ((0, Some InsufficientBufferSpace), r)
      else
        case go_rem (currPosition r + dataLen) (size_rb r) of
          None \<Rightarrow> ((0, Some RuntimePanic), r)
        | Some targetPos \<Rightarrow>
            if targetPos < currPosition r then
              (case copy_at (buffer r) (currPosition r)
                      (slice_to data (size_rb r - currPosition r)) of
                 None \<Rightarrow> ((0, Some RuntimePanic), r)
               | Some buf1 \<Rightarrow>
                   (case copy_at buf1 0 (slice_from data (size_rb r - currPosition r)) of
                      None \<Rightarrow> ((0, Some RuntimePanic), r\<lparr>buffer := buf1\<rparr>)
                    | Some buf2 \<Rightarrow>
                        ((dataLen, None), r\<lparr>buffer := buf2, currPosition := targetPos\<rparr>)))
            else
              (case copy_at (buffer r) (currPosition r) (Some data) of
                 None \<Rightarrow> ((0, Some RuntimePanic), r)
               | Some buf1 \<Rightarrow>
                   ((dataLen, None), r\<lparr>buffer := buf1, currPosition := targetPos\<rparr>)))"

text \<open>
  \<^verbatim>\<open>func (r *RingBuffer) Write(b []byte) (int, error)\<close> of the second draft: the check, the
  header, then two calls of \<open>write_rb\<close>, each error handed on.
\<close>

definition Write :: "RingBuffer \<Rightarrow> byte list \<Rightarrow> (int \<times> error option) \<times> RingBuffer" where
  "Write r b =
     (let blockLen = int (length b);
          totalLen = blockLen + BlockHeaderLenSize in
      if totalLen > size_rb r then ((0, Some InsufficientBufferSpace), r)
      else
        let header = PutUint64 (word_of_int blockLen) in
        case write_rb r header of
          ((_, Some err), r1) \<Rightarrow> ((0, Some err), r1)
        | ((_, None), r1) \<Rightarrow>
            (case write_rb r1 b of
               ((_, Some err), r2) \<Rightarrow> ((0, Some err), r2)
             | ((_, None), r2) \<Rightarrow> ((totalLen, None), r2)))"

text \<open>
  \<^verbatim>\<open>func (r *RingBuffer) Get(index int, dataSize int, b *Block) error\<close>, the same in both
  drafts.  It returns the error, the store and the block it filled.
\<close>

definition Get :: "RingBuffer \<Rightarrow> int \<Rightarrow> int \<Rightarrow> Block \<Rightarrow> error option \<times> RingBuffer \<times> Block" where
  "Get r index dataSize b =
     (if index > size_rb r then (Some BufferrOutOfRange, r, b)
      else if dataSize < 0 then (Some RuntimePanic, r, b)
      else
        let all0 = replicate (nat dataSize) (0 :: byte) in
        if index + dataSize > size_rb r then
          (case copy_at all0 0 (slice_from (buffer r) index) of
             None \<Rightarrow> (Some RuntimePanic, r, b\<lparr>AllData := all0\<rparr>)
           | Some all1 \<Rightarrow>
               (case copy_at all1 (size_rb r - index)
                       (slice (buffer r) 0 (dataSize - (size_rb r - index))) of
                  None \<Rightarrow> (Some RuntimePanic, r, b\<lparr>AllData := all1\<rparr>)
                | Some all2 \<Rightarrow> (None, r, b\<lparr>AllData := all2\<rparr>)))
        else
          (case copy_at all0 0 (slice (buffer r) index (index + dataSize)) of
             None \<Rightarrow> (Some RuntimePanic, r, b\<lparr>AllData := all0\<rparr>)
           | Some all1 \<Rightarrow> (None, r, b\<lparr>AllData := all1\<rparr>)))"

section \<open>Histories of a store\<close>

text \<open>
  A call a client can make on a store: \<^verbatim>\<open>Add\<close> (first draft), \<^verbatim>\<open>Write\<close> (second draft,
  which is also all that its \<^verbatim>\<open>Add\<close> does to the store, through the gob encoder) and
  \<^verbatim>\<open>Get\<close>.  \<open>step\<close> is the store a call leaves behind, whatever it returned; \<open>run\<close>
  applies a sequence of calls from left to right.
\<close>

datatype op = OpAdd Block | OpWrite "byte list" | OpGet int int Block

definition step :: "RingBuffer \<Rightarrow> op \<Rightarrow> RingBuffer" where
  "step r x =
     (case x of
        OpAdd blk \<Rightarrow> snd (Add r blk)
      | OpWrite d \<Rightarrow> snd (Write r d)
      | OpGet i n b \<Rightarrow> fst (snd (Get r i n b)))"

definition run :: "RingBuffer \<Rightarrow> op list \<Rightarrow> RingBuffer" where
  "run r ops = foldl step r ops"


text \<open>
  How far the position \<open>i\<close> of the region lies behind the cursor of \<open>r\<close>, going round
  the region: 0 for the cursor itself, \<open>size_rb r - 1\<close> for the position before it.
\<close>

definition behind_cursor :: "RingBuffer \<Rightarrow> nat \<Rightarrow> int" where
  "behind_cursor r i = (int i - currPosition r) mod size_rb r"

section \<open>Slices and copies\<close>

lemma length_copy_into: "length (copy_into dst off src) = length dst"
  by (simp add: copy_into_def)

lemma copy_at_length: "copy_at dst lo src = Some d \<Longrightarrow> length d = length dst"
  by (auto simp: copy_at_def length_copy_into split: if_splits option.splits)

lemma slice_from_nat: "i \<le> length s \<Longrightarrow> slice_from s (int i) = Some (drop i s)"
  by (simp add: slice_from_def)

lemma slice_to_nat: "i \<le> length s \<Longrightarrow> slice_to s (int i) = Some (take i s)"
  by (simp add: slice_to_def)

lemma slice_nat:
  "lo \<le> hi \<Longrightarrow> hi \<le> length s \<Longrightarrow>
     slice s (int lo) (int hi) = Some (take (hi - lo) (drop lo s))"
  by (simp add: slice_def nat_diff_distrib)

lemma copy_at_nat:
  "off \<le> length dst \<Longrightarrow> copy_at dst (int off) (Some s) = Some (copy_into dst off s)"
  by (simp add: copy_at_def)

lemma copy_into_whole: "length src = length dst \<Longrightarrow> copy_into dst 0 src = src"
  by (simp add: copy_into_def)

lemma length_PutUint64: "length (PutUint64 v) = 8"
  by (simp add: PutUint64_def)

section \<open>Construction\<close>

text \<open>
  C9 (as amended).  \<^verbatim>\<open>NewRingBuffer\<close> has no error result and validates nothing; there is
  no \<open>InvalidConfig\<close>.  Whenever it returns a store for a capacity \<open>c\<close>, then
  \<open>0 \<le> c \<le> maxAlloc\<close>, the region is exactly \<open>c\<close> zero bytes, the recorded size is \<open>c\<close>
  and the cursor is 0.  It returns a store for every capacity from 0, zero included, up
  to the allocation limit of the runtime (as far as the machine has the memory), and
  for a capacity below 0 or above that limit the allocation panics at run time.
\<close>

theorem NewRingBuffer_result:
  "(NewRingBuffer c = Inr r \<longrightarrow>
      0 \<le> c \<and> c \<le> maxAlloc \<and> buffer r = replicate (nat c) 0 \<and>
      int (length (buffer r)) = c \<and> size_rb r = c \<and> currPosition r = 0) \<and>
   (0 \<le> c \<and> c \<le> maxAlloc \<longrightarrow> (\<exists>r'. NewRingBuffer c = Inr r')) \<and>
   (c < 0 \<or> maxAlloc < c \<longrightarrow> NewRingBuffer c = Inl RuntimePanic)"
proof -
  have a: "NewRingBuffer c = Inr r \<longrightarrow>
      0 \<le> c \<and> c \<le> maxAlloc \<and> buffer r = replicate (nat c) 0 \<and>
      int (length (buffer r)) = c \<and> size_rb r = c \<and> currPosition r = 0"
    by (auto simp: NewRingBuffer_def split: if_splits)
  have b: "0 \<le> c \<and> c \<le> maxAlloc \<longrightarrow> (\<exists>r'. NewRingBuffer c = Inr r')"
    by (auto simp: NewRingBuffer_def)
  have d: "c < 0 \<or> maxAlloc < c \<longrightarrow> NewRingBuffer c = Inl RuntimePanic"
    by (auto simp: NewRingBuffer_def)
  from a b d show ?thesis by blast
qed

theorem NewRingBuffer_result_witness:
  "NewRingBuffer 32 =
     Inr \<lparr> buffer = replicate 32 0, size_rb = 32, currPosition = 0, tempoPosition = 0,
           blockIdx = None, timeIdx = None \<rparr> \<and>
   (0::int) \<le> 32 \<and> 32 \<le> maxAlloc \<and>
   int (length (buffer \<lparr> buffer = replicate 32 0, size_rb = 32, currPosition = 0,
           tempoPosition = 0, blockIdx = None, timeIdx = None \<rparr>)) = 32 \<and>
   (\<exists>r'. NewRingBuffer 32 = Inr r') \<and>
   (-1::int) < 0 \<and> NewRingBuffer (-1) = Inl RuntimePanic \<and>
   maxAlloc < 2 ^ 62 \<and> NewRingBuffer (2 ^ 62) = Inl RuntimePanic"
proof -
  let ?R = "\<lparr> buffer = replicate 32 0, size_rb = 32, currPosition = 0, tempoPosition = 0,
              blockIdx = None, timeIdx = None \<rparr>"
  have new: "NewRingBuffer 32 = Inr ?R" by (simp add: NewRingBuffer_def maxAlloc_def)
  have lo: "(0::int) \<le> 32" "32 \<le> maxAlloc" "(-1::int) < 0" "maxAlloc < 2 ^ 62"
    by (simp_all add: maxAlloc_def)
  from NewRingBuffer_result [of 32 ?R] new
  have len: "int (length (buffer ?R)) = 32" by blast
  from NewRingBuffer_result [of 32 ?R] lo
  have ex: "\<exists>r'. NewRingBuffer 32 = Inr r'" by blast
  from NewRingBuffer_result [of "-1" ?R] lo
  have neg: "NewRingBuffer (-1) = Inl RuntimePanic" by blast
  from NewRingBuffer_result [of "2 ^ 62" ?R] lo
  have big: "NewRingBuffer (2 ^ 62) = Inl RuntimePanic" by blast
  from new lo len ex neg big show ?thesis by blast
qed

text \<open>
  C9 as the specification states it fails at capacity 0: construction succeeds there
  and hands out a store with an empty region.
\<close>

theorem NewRingBuffer_zero_capacity:
  "NewRingBuffer 0 =
     Inr \<lparr> buffer = [], size_rb = 0, currPosition = 0, tempoPosition = 0,
           blockIdx = None, timeIdx = None \<rparr>"
  by (simp add: NewRingBuffer_def maxAlloc_def)

lemma upt_0_8: "[0..<8] = [0, 1, 2, 3, 4, 5, 6, 7]"
  by code_simp

section \<open>What every call leaves alone\<close>

lemma Add_size: "size_rb (snd (Add r blk)) = size_rb r"
  by (simp add: Add_def Let_def split: option.splits)

lemma Add_maps:
  "blockIdx (snd (Add r blk)) = blockIdx r \<and> timeIdx (snd (Add r blk)) = timeIdx r"
  by (simp add: Add_def Let_def split: option.splits)

lemma write_rb_size: "size_rb (snd (write_rb r d)) = size_rb r"
  by (simp add: write_rb_def Let_def split: option.splits)

lemma write_rb_maps:
  "blockIdx (snd (write_rb r d)) = blockIdx r \<and> timeIdx (snd (write_rb r d)) = timeIdx r"
  by (simp add: write_rb_def Let_def split: option.splits)

lemma Get_store: "fst (snd (Get r i n b)) = r"
  by (simp add: Get_def Let_def split: option.splits)

section \<open>Rejection for lack of space\<close>

lemma Add_insufficient_iff:
  "fst (Add r blk) = Some InsufficientBufferSpace \<longleftrightarrow> size_rb r < Len blk"
  by (simp add: Add_def Let_def split: option.splits)

lemma Add_rejected:
  "size_rb r < Len blk \<Longrightarrow> Add r blk = (Some InsufficientBufferSpace, r)"
  by (simp add: Add_def Let_def)

lemma write_rb_insufficient_iff:
  "snd (fst (write_rb r d)) = Some InsufficientBufferSpace \<longleftrightarrow>
     size_rb r < int (length d) + BlockHeaderLenSize"
  by (simp add: write_rb_def Let_def split: option.splits)

lemma write_rb_rejected:
  "size_rb r < int (length d) + BlockHeaderLenSize \<Longrightarrow>
     write_rb r d = ((0, Some InsufficientBufferSpace), r)"
  by (simp add: write_rb_def Let_def)

lemma write_rb_insufficient_state:
  "snd (fst (write_rb r d)) = Some InsufficientBufferSpace \<Longrightarrow> snd (write_rb r d) = r"
  by (simp add: write_rb_insufficient_iff write_rb_rejected)

text \<open>The four ways through \<^verbatim>\<open>Write\<close>.\<close>

lemma Write_cases:
  obtains (rejected) "size_rb r < int (length d) + BlockHeaderLenSize"
      "Write r d = ((0, Some InsufficientBufferSpace), r)"
  | (header_failed) n1 e r1 where "\<not> size_rb r < int (length d) + BlockHeaderLenSize"
      "write_rb r (PutUint64 (word_of_int (int (length d)))) = ((n1, Some e), r1)"
      "Write r d = ((0, Some e), r1)"
  | (payload_failed) n1 r1 n2 e r2 where "\<not> size_rb r < int (length d) + BlockHeaderLenSize"
      "write_rb r (PutUint64 (word_of_int (int (length d)))) = ((n1, None), r1)"
      "write_rb r1 d = ((n2, Some e), r2)"
      "Write r d = ((0, Some e), r2)"
  | (written) n1 r1 n2 r2 where "\<not> size_rb r < int (length d) + BlockHeaderLenSize"
      "write_rb r (PutUint64 (word_of_int (int (length d)))) = ((n1, None), r1)"
      "write_rb r1 d = ((n2, None), r2)"
      "Write r d = ((int (length d) + BlockHeaderLenSize, None), r2)"
proof (cases "size_rb r < int (length d) + BlockHeaderLenSize")
  case True
  then show ?thesis using rejected by (simp add: Write_def Let_def)
next
  case False
  obtain n1 e1 r1 where w1:
    "write_rb r (PutUint64 (word_of_int (int (length d)))) = ((n1, e1), r1)"
    by (metis prod.exhaust)
  show ?thesis
  proof (cases e1)
    case (Some e)
    with False w1 show ?thesis using header_failed by (simp add: Write_def Let_def)
  next
    case None
    obtain n2 e2 r2 where w2: "write_rb r1 d = ((n2, e2), r2)"
      by (metis prod.exhaust)
    show ?thesis
    proof (cases e2)
      case (Some e)
      with False w1 w2 None show ?thesis using payload_failed by (simp add: Write_def Let_def)
    next
      case e2: None
      with False w1 w2 None show ?thesis using written by (simp add: Write_def Let_def)
    qed
  qed
qed

lemma Write_size: "size_rb (snd (Write r d)) = size_rb r"
proof (cases rule: Write_cases [of r d])
  case rejected
  then show ?thesis by simp
next
  case (header_failed n1 e r1)
  with write_rb_size [of r "PutUint64 (word_of_int (int (length d)))"] show ?thesis by simp
next
  case (payload_failed n1 r1 n2 e r2)
  with write_rb_size [of r "PutUint64 (word_of_int (int (length d)))"] write_rb_size [of r1 d]
  show ?thesis by simp
next
  case (written n1 r1 n2 r2)
  with write_rb_size [of r "PutUint64 (word_of_int (int (length d)))"] write_rb_size [of r1 d]
  show ?thesis by simp
qed

lemma Write_maps:
  "blockIdx (snd (Write r d)) = blockIdx r \<and> timeIdx (snd (Write r d)) = timeIdx r"
proof (cases rule: Write_cases [of r d])
  case rejected
  then show ?thesis by simp
next
  case (header_failed n1 e r1)
  with write_rb_maps [of r "PutUint64 (word_of_int (int (length d)))"] show ?thesis by simp
next
  case (payload_failed n1 r1 n2 e r2)
  with write_rb_maps [of r "PutUint64 (word_of_int (int (length d)))"] write_rb_maps [of r1 d]
  show ?thesis by simp
next
  case (written n1 r1 n2 r2)
  with write_rb_maps [of r "PutUint64 (word_of_int (int (length d)))"] write_rb_maps [of r1 d]
  show ?thesis by simp
qed

text \<open>
  \<^verbatim>\<open>Write\<close> is rejected when the payload and its header exceed the size, and also on
  every store of fewer than 16 bytes, where the header's own \<^verbatim>\<open>write\<close> is rejected.
\<close>

lemma Write_insufficient_iff:
  "snd (fst (Write r d)) = Some InsufficientBufferSpace \<longleftrightarrow>
     size_rb r < int (length d) + BlockHeaderLenSize \<or> size_rb r < 16"
proof (cases rule: Write_cases [of r d])
  case rejected
  then show ?thesis by simp
next
  case (header_failed n1 e r1)
  from write_rb_insufficient_iff [of r "PutUint64 (word_of_int (int (length d)))"] header_failed
  show ?thesis by (simp add: length_PutUint64 BlockHeaderLenSize_def)
next
  case (payload_failed n1 r1 n2 e r2)
  from write_rb_size [of r "PutUint64 (word_of_int (int (length d)))"] payload_failed
  have sz: "size_rb r1 = size_rb r" by simp
  from write_rb_insufficient_iff [of r "PutUint64 (word_of_int (int (length d)))"] payload_failed
  have "\<not> size_rb r < 16" by (simp add: length_PutUint64 BlockHeaderLenSize_def)
  moreover from write_rb_insufficient_iff [of r1 d] payload_failed sz
  have "e \<noteq> InsufficientBufferSpace" by simp
  ultimately show ?thesis using payload_failed by simp
next
  case (written n1 r1 n2 r2)
  from write_rb_insufficient_iff [of r "PutUint64 (word_of_int (int (length d)))"] written
  have "\<not> size_rb r < 16" by (simp add: length_PutUint64 BlockHeaderLenSize_def)
  then show ?thesis using written by simp
qed

lemma Write_insufficient_state:
  assumes "snd (fst (Write r d)) = Some InsufficientBufferSpace"
  shows "snd (Write r d) = r"
proof (cases rule: Write_cases [of r d])
  case rejected
  then show ?thesis by simp
next
  case (header_failed n1 e r1)
  with assms have "e = InsufficientBufferSpace" by simp
  with write_rb_insufficient_state [of r "PutUint64 (word_of_int (int (length d)))"] header_failed
  show ?thesis by simp
next
  case (payload_failed n1 r1 n2 e r2)
  with assms have e: "e = InsufficientBufferSpace" by simp
  from write_rb_size [of r "PutUint64 (word_of_int (int (length d)))"] payload_failed
  have sz: "size_rb r1 = size_rb r" by simp
  from write_rb_insufficient_iff [of r1 d] payload_failed sz e
  show ?thesis by simp
next
  case (written n1 r1 n2 r2)
  with assms show ?thesis by simp
qed

text \<open>
  C5.  A write that is rejected for lack of space leaves the store as it was: \<^verbatim>\<open>Add\<close>
  and \<^verbatim>\<open>Write\<close> answer a frame larger than the size with \<open>InsufficientBufferSpace\<close> and
  the unchanged store, and whenever either of them answers \<open>InsufficientBufferSpace\<close> the
  store it leaves is the store it was given: the same cursor, the same bytes, the same
  index maps.
\<close>

theorem rejected_write_leaves_store:
  "(size_rb r < Len blk \<longrightarrow> Add r blk = (Some InsufficientBufferSpace, r)) \<and>
   (fst (Add r blk) = Some InsufficientBufferSpace \<longrightarrow> snd (Add r blk) = r) \<and>
   (size_rb r < int (length d) + BlockHeaderLenSize \<longrightarrow>
      Write r d = ((0, Some InsufficientBufferSpace), r)) \<and>
   (snd (fst (Write r d)) = Some InsufficientBufferSpace \<longrightarrow> snd (Write r d) = r)"
proof -
  have "fst (Add r blk) = Some InsufficientBufferSpace \<longrightarrow> snd (Add r blk) = r"
    by (simp add: Add_insufficient_iff Add_rejected)
  moreover have "size_rb r < int (length d) + BlockHeaderLenSize \<longrightarrow>
      Write r d = ((0, Some InsufficientBufferSpace), r)"
    by (simp add: Write_def Let_def)
  ultimately show ?thesis
    by (simp add: Add_rejected Write_insufficient_state)
qed

theorem rejected_write_leaves_store_witness:
  "size_rb \<lparr> buffer = [1, 2, 3, 4, 0, 0, 0, 0, 0, 0, 0, 0], size_rb = 12, currPosition = 4,
             tempoPosition = 0, blockIdx = None, timeIdx = None \<rparr>
     < Len \<lparr> hashedKeyLen = 4, rawKeyLen = 4, dataLen = 5,
              AllData = [9, 9, 9, 9, 9, 9, 9, 9, 9, 9, 9, 9, 9], CreatedAt = 7 \<rparr> \<and>
   Add \<lparr> buffer = [1, 2, 3, 4, 0, 0, 0, 0, 0, 0, 0, 0], size_rb = 12, currPosition = 4,
         tempoPosition = 0, blockIdx = None, timeIdx = None \<rparr>
       \<lparr> hashedKeyLen = 4, rawKeyLen = 4, dataLen = 5,
         AllData = [9, 9, 9, 9, 9, 9, 9, 9, 9, 9, 9, 9, 9], CreatedAt = 7 \<rparr> =
     (Some InsufficientBufferSpace,
      \<lparr> buffer = [1, 2, 3, 4, 0, 0, 0, 0, 0, 0, 0, 0], size_rb = 12, currPosition = 4,
        tempoPosition = 0, blockIdx = None, timeIdx = None \<rparr>) \<and>
   size_rb \<lparr> buffer = [1, 2, 3, 4, 0, 0, 0, 0, 0, 0, 0, 0], size_rb = 12, currPosition = 4,
             tempoPosition = 0, blockIdx = None, timeIdx = None \<rparr>
     < int (length [9 :: byte, 9, 9, 9, 9]) + BlockHeaderLenSize \<and>
   Write \<lparr> buffer = [1, 2, 3, 4, 0, 0, 0, 0, 0, 0, 0, 0], size_rb = 12, currPosition = 4,
           tempoPosition = 0, blockIdx = None, timeIdx = None \<rparr> [9, 9, 9, 9, 9] =
     ((0, Some InsufficientBufferSpace),
      \<lparr> buffer = [1, 2, 3, 4, 0, 0, 0, 0, 0, 0, 0, 0], size_rb = 12, currPosition = 4,
        tempoPosition = 0, blockIdx = None, timeIdx = None \<rparr>)"
  using rejected_write_leaves_store
    [of "\<lparr> buffer = [1, 2, 3, 4, 0, 0, 0, 0, 0, 0, 0, 0], size_rb = 12, currPosition = 4,
           tempoPosition = 0, blockIdx = None, timeIdx = None \<rparr>"
        "\<lparr> hashedKeyLen = 4, rawKeyLen = 4, dataLen = 5,
           AllData = [9, 9, 9, 9, 9, 9, 9, 9, 9, 9, 9, 9, 9], CreatedAt = 7 \<rparr>"
        "[9, 9, 9, 9, 9]"]
  by (simp add: Len_def int64_def BlockHeaderLenSize_def)

section \<open>Reading\<close>

text \<open>\<^verbatim>\<open>Get\<close> on a position and a length that are natural numbers inside the region.\<close>

lemma Get_nat:
  assumes sz: "size_rb r = int (length (buffer r))"
    and i: "i < length (buffer r)" and m: "m \<le> length (buffer r)"
  shows "Get r (int i) (int m) b =
     (None, r, b\<lparr>AllData :=
        (if i + m \<le> length (buffer r) then take m (drop i (buffer r))
         else drop i (buffer r) @ take (i + m - length (buffer r)) (buffer r))\<rparr>)"
proof (cases "i + m \<le> length (buffer r)")
  case True
  have s: "slice (buffer r) (int i) (int i + int m) = Some (take m (drop i (buffer r)))"
    using slice_nat [of i "i + m" "buffer r"] True by simp
  have len: "length (take m (drop i (buffer r))) = length (replicate m (0::byte))"
    using True by simp
  have c: "copy_at (replicate m (0::byte)) 0 (Some (take m (drop i (buffer r)))) =
      Some (take m (drop i (buffer r)))"
    using copy_at_nat [of 0 "replicate m (0::byte)"] copy_into_whole [OF len] by simp
  from True i sz
  have g: "\<not> int i > size_rb r" "\<not> int i + int m > size_rb r" "\<not> int m < 0"
    by simp_all
  show ?thesis
    by (simp only: Get_def Let_def g True if_False if_True nat_int s c option.case)
next
  case False
  let ?L = "length (buffer r)"
  let ?k = "i + m - ?L"
  have s1: "slice_from (buffer r) (int i) = Some (drop i (buffer r))"
    using slice_from_nat [of i "buffer r"] i by simp
  have a1: "copy_into (replicate m (0::byte)) 0 (drop i (buffer r)) =
      drop i (buffer r) @ replicate ?k 0"
    using False i m by (simp add: copy_into_def)
  have c1: "copy_at (replicate m (0::byte)) 0 (Some (drop i (buffer r))) =
      Some (drop i (buffer r) @ replicate ?k 0)"
    using copy_at_nat [of 0 "replicate m (0::byte)"] a1 by simp
  have e1: "size_rb r - int i = int (?L - i)" using sz i by simp
  have e2: "int m - int (?L - i) = int ?k" using i False by simp
  have s2: "slice (buffer r) 0 (int ?k) = Some (take ?k (buffer r))"
    using slice_nat [of 0 ?k "buffer r"] m i by simp
  have a2: "copy_into (drop i (buffer r) @ replicate ?k 0) (?L - i) (take ?k (buffer r)) =
      drop i (buffer r) @ take ?k (buffer r)"
    using False i m by (simp add: copy_into_def add.commute)
  have c2: "copy_at (drop i (buffer r) @ replicate ?k 0) (int (?L - i))
        (Some (take ?k (buffer r))) =
      Some (drop i (buffer r) @ take ?k (buffer r))"
    using copy_at_nat [of "?L - i" "drop i (buffer r) @ replicate ?k 0"] a2 by simp
  from False i sz
  have g: "\<not> int i > size_rb r" "int i + int m > size_rb r" "\<not> int m < 0"
    by simp_all
  show ?thesis
    by (simp only: Get_def Let_def g False if_False if_True nat_int s1 c1 e1 e2 s2 c2
        option.case)
qed

text \<open>
  C6.  On a store whose recorded size is the length of its region, for every offset
  \<open>0 \<le> index < size\<close> and every length \<open>0 \<le> n \<le> size\<close>, \<^verbatim>\<open>Get\<close> returns no error,
  leaves the store as it is, and fills the block with \<open>buffer[index .. index+n)\<close> when
  \<open>index + n \<le> size\<close>, and with \<open>buffer[index .. size)\<close> followed by
  \<open>buffer[0 .. index+n-size)\<close> otherwise.  The bytes returned are a function of the
  region, the offset and the length alone.
\<close>

theorem Get_reads_ring:
  assumes "size_rb r = int (length (buffer r))" "0 \<le> index" "index < size_rb r"
    "0 \<le> n" "n \<le> size_rb r"
  shows "Get r index n b =
     (None, r, b\<lparr>AllData :=
        (if index + n \<le> size_rb r then take (nat n) (drop (nat index) (buffer r))
         else drop (nat index) (buffer r) @ take (nat (index + n - size_rb r)) (buffer r))\<rparr>)"
proof -
  have i: "nat index < length (buffer r)" and m: "nat n \<le> length (buffer r)"
    using assms by simp_all
  have eq: "int (nat index) = index" "int (nat n) = n" using assms by simp_all
  have c: "(index + n \<le> size_rb r) = (nat index + nat n \<le> length (buffer r))"
    using assms by linarith
  have k: "nat (index + n - size_rb r) = nat index + nat n - length (buffer r)"
    using assms by linarith
  show ?thesis
    using Get_nat [OF assms(1) i m, of b] by (simp only: eq c k)
qed

theorem Get_reads_ring_witness:
  "size_rb \<lparr> buffer = [1, 2, 3, 4, 5, 6, 7, 8], size_rb = 8, currPosition = 3,
             tempoPosition = 0, blockIdx = None, timeIdx = None \<rparr> =
     int (length (buffer \<lparr> buffer = [1, 2, 3, 4, 5, 6, 7, 8], size_rb = 8, currPosition = 3,
             tempoPosition = 0, blockIdx = None, timeIdx = None \<rparr>)) \<and>
   (0::int) \<le> 6 \<and> (0::int) \<le> 5 \<and>
   6 < size_rb \<lparr> buffer = [1, 2, 3, 4, 5, 6, 7, 8], size_rb = 8, currPosition = 3,
             tempoPosition = 0, blockIdx = None, timeIdx = None \<rparr> \<and>
   5 \<le> size_rb \<lparr> buffer = [1, 2, 3, 4, 5, 6, 7, 8], size_rb = 8, currPosition = 3,
             tempoPosition = 0, blockIdx = None, timeIdx = None \<rparr> \<and>
   Get \<lparr> buffer = [1, 2, 3, 4, 5, 6, 7, 8], size_rb = 8, currPosition = 3,
         tempoPosition = 0, blockIdx = None, timeIdx = None \<rparr> 6 5
       \<lparr> hashedKeyLen = 0, rawKeyLen = 0, dataLen = 0, AllData = [], CreatedAt = 0 \<rparr> =
     (None,
      \<lparr> buffer = [1, 2, 3, 4, 5, 6, 7, 8], size_rb = 8, currPosition = 3,
        tempoPosition = 0, blockIdx = None, timeIdx = None \<rparr>,
      \<lparr> hashedKeyLen = 0, rawKeyLen = 0, dataLen = 0, AllData = [7, 8, 1, 2, 3],
        CreatedAt = 0 \<rparr>)"
  using Get_reads_ring
    [of "\<lparr> buffer = [1, 2, 3, 4, 5, 6, 7, 8], size_rb = 8, currPosition = 3,
           tempoPosition = 0, blockIdx = None, timeIdx = None \<rparr>" 6 5
        "\<lparr> hashedKeyLen = 0, rawKeyLen = 0, dataLen = 0, AllData = [], CreatedAt = 0 \<rparr>"]
  by simp

lemma Get_not_out_of_range:
  "\<not> size_rb r < index \<Longrightarrow> fst (Get r index n b) \<noteq> Some BufferrOutOfRange"
  by (simp add: Get_def Let_def split: option.split)

text \<open>
  C7 (as amended).  \<^verbatim>\<open>Get\<close> checks the offset only.  It returns \<open>BufferrOutOfRange\<close>
  whenever the offset is greater than the size and never when the offset is below the
  size, whatever the length is; and when it returns \<open>BufferrOutOfRange\<close> it hands back
  the store and the caller's block untouched, so no bytes are returned.
\<close>

theorem Get_out_of_range:
  "(size_rb r < index \<longrightarrow> Get r index n b = (Some BufferrOutOfRange, r, b)) \<and>
   (index < size_rb r \<longrightarrow> fst (Get r index n b) \<noteq> Some BufferrOutOfRange) \<and>
   (fst (Get r index n b) = Some BufferrOutOfRange \<longrightarrow>
      Get r index n b = (Some BufferrOutOfRange, r, b))"
proof -
  have a: "size_rb r < index \<longrightarrow> Get r index n b = (Some BufferrOutOfRange, r, b)"
    by (simp add: Get_def)
  have b: "index < size_rb r \<longrightarrow> fst (Get r index n b) \<noteq> Some BufferrOutOfRange"
    using Get_not_out_of_range [of r index n b] by simp
  have c: "fst (Get r index n b) = Some BufferrOutOfRange \<longrightarrow>
      Get r index n b = (Some BufferrOutOfRange, r, b)"
    using Get_not_out_of_range [of r index n b] a by blast
  from a b c show ?thesis by blast
qed

theorem Get_out_of_range_witness:
  "size_rb \<lparr> buffer = [1, 2, 3, 4], size_rb = 4, currPosition = 0, tempoPosition = 0,
             blockIdx = None, timeIdx = None \<rparr> < 5 \<and>
   Get \<lparr> buffer = [1, 2, 3, 4], size_rb = 4, currPosition = 0, tempoPosition = 0,
         blockIdx = None, timeIdx = None \<rparr> 5 2
       \<lparr> hashedKeyLen = 0, rawKeyLen = 0, dataLen = 0, AllData = [9], CreatedAt = 0 \<rparr> =
     (Some BufferrOutOfRange,
      \<lparr> buffer = [1, 2, 3, 4], size_rb = 4, currPosition = 0, tempoPosition = 0,
        blockIdx = None, timeIdx = None \<rparr>,
      \<lparr> hashedKeyLen = 0, rawKeyLen = 0, dataLen = 0, AllData = [9], CreatedAt = 0 \<rparr>) \<and>
   1 < size_rb \<lparr> buffer = [1, 2, 3, 4], size_rb = 4, currPosition = 0, tempoPosition = 0,
                 blockIdx = None, timeIdx = None \<rparr> \<and>
   fst (Get \<lparr> buffer = [1, 2, 3, 4], size_rb = 4, currPosition = 0, tempoPosition = 0,
              blockIdx = None, timeIdx = None \<rparr> 1 9
            \<lparr> hashedKeyLen = 0, rawKeyLen = 0, dataLen = 0, AllData = [9], CreatedAt = 0 \<rparr>)
     \<noteq> Some BufferrOutOfRange"
proof -
  let ?R = "\<lparr> buffer = [1, 2, 3, 4], size_rb = 4, currPosition = 0, tempoPosition = 0,
              blockIdx = None, timeIdx = None \<rparr>"
  let ?B = "\<lparr> hashedKeyLen = 0, rawKeyLen = 0, dataLen = 0, AllData = [9], CreatedAt = 0 \<rparr>"
  have h1: "size_rb ?R < 5" and h2: "1 < size_rb ?R" by simp_all
  from Get_out_of_range [of ?R 5 2 ?B] h1
  have g1: "Get ?R 5 2 ?B = (Some BufferrOutOfRange, ?R, ?B)" by blast
  from Get_out_of_range [of ?R 1 9 ?B] h2
  have g2: "fst (Get ?R 1 9 ?B) \<noteq> Some BufferrOutOfRange" by blast
  from h1 h2 g1 g2 show ?thesis by blast
qed

text \<open>
  C7 as the specification states it fails for a length above the capacity: on a store
  of 4 bytes, a read of 5 bytes at offset 0 returns no error and 5 bytes, the first
  byte of the region twice.
\<close>

theorem Get_length_above_capacity:
  "size_rb \<lparr> buffer = [1, 2, 3, 4], size_rb = 4, currPosition = 0, tempoPosition = 0,
             blockIdx = None, timeIdx = None \<rparr> < 5 \<and>
   Get \<lparr> buffer = [1, 2, 3, 4], size_rb = 4, currPosition = 0, tempoPosition = 0,
         blockIdx = None, timeIdx = None \<rparr> 0 5
       \<lparr> hashedKeyLen = 0, rawKeyLen = 0, dataLen = 0, AllData = [], CreatedAt = 0 \<rparr> =
     (None,
      \<lparr> buffer = [1, 2, 3, 4], size_rb = 4, currPosition = 0, tempoPosition = 0,
        blockIdx = None, timeIdx = None \<rparr>,
      \<lparr> hashedKeyLen = 0, rawKeyLen = 0, dataLen = 0, AllData = [1, 2, 3, 4, 1],
        CreatedAt = 0 \<rparr>)"
  by (simp add: Get_def slice_def slice_from_def copy_at_def copy_into_def)

section \<open>The index maps\<close>

lemma step_maps: "blockIdx (step r x) = blockIdx r \<and> timeIdx (step r x) = timeIdx r"
  by (cases x) (simp_all add: step_def Add_maps Write_maps Get_store)

lemma run_maps: "blockIdx (run r ops) = blockIdx r \<and> timeIdx (run r ops) = timeIdx r"
proof (induction ops arbitrary: r)
  case Nil
  show ?case by (simp add: run_def)
next
  case (Cons x ops)
  have "run r (x # ops) = run (step r x) ops" by (simp add: run_def)
  with Cons [of "step r x"] step_maps [of r x] show ?case by simp
qed

lemma NewRingBuffer_maps: "NewRingBuffer c = Inr r \<Longrightarrow> blockIdx r = None \<and> timeIdx r = None"
  by (auto simp: NewRingBuffer_def split: if_splits)

text \<open>\<^verbatim>\<open>Get\<close> reads the region and the size of the store and nothing else of it.\<close>

lemma Get_reads_buffer_and_size:
  assumes "buffer r' = buffer r" "size_rb r' = size_rb r"
  shows "fst (Get r' i n b) = fst (Get r i n b) \<and>
         snd (snd (Get r' i n b)) = snd (snd (Get r i n b))"
  using assms by (simp add: Get_def Let_def split: option.split)

text \<open>
  C10.  Neither index map is ever set, read or changed.  A store made by
  \<^verbatim>\<open>NewRingBuffer\<close> has both maps \<^verbatim>\<open>nil\<close>, and they are still \<^verbatim>\<open>nil\<close> after every sequence
  of \<^verbatim>\<open>Add\<close>, \<^verbatim>\<open>Write\<close> and \<^verbatim>\<open>Get\<close> calls, whatever these calls return.  What \<^verbatim>\<open>Get\<close> returns
  is fixed by the region, the size and the offset and length the caller passes: putting
  any maps and any cursor into the store changes neither its error nor the block it
  fills.
\<close>

theorem index_maps_stay_nil:
  assumes "NewRingBuffer c = Inr r0"
  shows "blockIdx (run r0 ops) = None \<and> timeIdx (run r0 ops) = None \<and>
         fst (Get ((run r0 ops)\<lparr>currPosition := p, blockIdx := bi, timeIdx := ti\<rparr>) i n b) =
           fst (Get (run r0 ops) i n b) \<and>
         snd (snd (Get ((run r0 ops)\<lparr>currPosition := p, blockIdx := bi, timeIdx := ti\<rparr>) i n b)) =
           snd (snd (Get (run r0 ops) i n b))"
proof -
  from run_maps [of r0 ops] NewRingBuffer_maps [OF assms]
  have "blockIdx (run r0 ops) = None \<and> timeIdx (run r0 ops) = None" by simp
  moreover have "fst (Get ((run r0 ops)\<lparr>currPosition := p, blockIdx := bi, timeIdx := ti\<rparr>) i n b) =
           fst (Get (run r0 ops) i n b) \<and>
         snd (snd (Get ((run r0 ops)\<lparr>currPosition := p, blockIdx := bi, timeIdx := ti\<rparr>) i n b)) =
           snd (snd (Get (run r0 ops) i n b))"
    by (rule Get_reads_buffer_and_size) simp_all
  ultimately show ?thesis by blast
qed

theorem index_maps_stay_nil_witness:
  "NewRingBuffer 16 =
     Inr \<lparr> buffer = replicate 16 0, size_rb = 16, currPosition = 0, tempoPosition = 0,
           blockIdx = None, timeIdx = None \<rparr> \<and>
   blockIdx (run \<lparr> buffer = replicate 16 0, size_rb = 16, currPosition = 0, tempoPosition = 0,
                   blockIdx = None, timeIdx = None \<rparr>
      [OpAdd \<lparr> hashedKeyLen = 1, rawKeyLen = 1, dataLen = 1, AllData = [1, 2, 3],
               CreatedAt = 5 \<rparr>,
       OpWrite [4, 5], OpGet 0 3 \<lparr> hashedKeyLen = 0, rawKeyLen = 0, dataLen = 0,
               AllData = [], CreatedAt = 0 \<rparr>]) = None \<and>
   timeIdx (run \<lparr> buffer = replicate 16 0, size_rb = 16, currPosition = 0, tempoPosition = 0,
                  blockIdx = None, timeIdx = None \<rparr>
      [OpAdd \<lparr> hashedKeyLen = 1, rawKeyLen = 1, dataLen = 1, AllData = [1, 2, 3],
               CreatedAt = 5 \<rparr>,
       OpWrite [4, 5], OpGet 0 3 \<lparr> hashedKeyLen = 0, rawKeyLen = 0, dataLen = 0,
               AllData = [], CreatedAt = 0 \<rparr>]) = None"
proof -
  let ?R = "\<lparr> buffer = replicate 16 0, size_rb = 16, currPosition = 0, tempoPosition = 0,
              blockIdx = None, timeIdx = None \<rparr>"
  have new: "NewRingBuffer 16 = Inr ?R" by (simp add: NewRingBuffer_def maxAlloc_def)
  from index_maps_stay_nil [OF new] new show ?thesis by blast
qed

section \<open>The cursor of \<^verbatim>\<open>Add\<close>\<close>

text \<open>
  C1 fails on \<^verbatim>\<open>Add\<close>.  In \<^verbatim>\<open>r.currPosition + blockLen%r.size\<close> the remainder is taken of
  the block length alone, so the target position is never below the cursor and the
  branch that splits the block is never taken.  A store of 32 bytes is filled with a
  block of 28 bytes, which puts the cursor at 28; a block of 10 bytes then has its
  first 4 bytes copied to \<open>[28, 32)\<close>, its other 6 bytes dropped instead of copied to
  \<open>[0, 6)\<close>, and the cursor set to 38 instead of \<open>(28 + 10) mod 32 = 6\<close>.
\<close>

theorem Add_at_28_of_32_does_not_wrap:
  "NewRingBuffer 32 =
     Inr \<lparr> buffer = replicate 32 0, size_rb = 32, currPosition = 0, tempoPosition = 0,
           blockIdx = None, timeIdx = None \<rparr> \<and>
   Add \<lparr> buffer = replicate 32 0, size_rb = 32, currPosition = 0, tempoPosition = 0,
         blockIdx = None, timeIdx = None \<rparr>
       \<lparr> hashedKeyLen = 8, rawKeyLen = 4, dataLen = 16, AllData = replicate 28 7,
         CreatedAt = 1 \<rparr> =
     (None, \<lparr> buffer = replicate 28 7 @ replicate 4 0, size_rb = 32, currPosition = 28,
              tempoPosition = 0, blockIdx = None, timeIdx = None \<rparr>) \<and>
   Add \<lparr> buffer = replicate 28 7 @ replicate 4 0, size_rb = 32, currPosition = 28,
         tempoPosition = 0, blockIdx = None, timeIdx = None \<rparr>
       \<lparr> hashedKeyLen = 2, rawKeyLen = 3, dataLen = 5,
         AllData = [1, 2, 3, 4, 5, 6, 7, 8, 9, 10], CreatedAt = 2 \<rparr> =
     (None, \<lparr> buffer = replicate 28 7 @ [1, 2, 3, 4], size_rb = 32, currPosition = 38,
              tempoPosition = 0, blockIdx = None, timeIdx = None \<rparr>) \<and>
   (28 + 10) mod 32 = (6 :: int)"
  by (simp add: NewRingBuffer_def maxAlloc_def Add_def Len_def int64_def go_rem_def copy_at_def
      copy_into_def)

text \<open>
  C2 fails on \<^verbatim>\<open>Add\<close>, by the same expression.  Two blocks of 20 bytes added to a fresh
  store of 32 bytes leave the cursor at 40, outside \<open>[0, 32)\<close>; the second block is cut
  to the 12 bytes that fit behind position 20.
\<close>

theorem Add_twice_cursor_outside:
  "NewRingBuffer 32 =
     Inr \<lparr> buffer = replicate 32 0, size_rb = 32, currPosition = 0, tempoPosition = 0,
           blockIdx = None, timeIdx = None \<rparr> \<and>
   run \<lparr> buffer = replicate 32 0, size_rb = 32, currPosition = 0, tempoPosition = 0,
         blockIdx = None, timeIdx = None \<rparr>
     [OpAdd \<lparr> hashedKeyLen = 4, rawKeyLen = 6, dataLen = 10, AllData = replicate 20 1,
              CreatedAt = 1 \<rparr>,
      OpAdd \<lparr> hashedKeyLen = 4, rawKeyLen = 6, dataLen = 10, AllData = replicate 20 2,
              CreatedAt = 2 \<rparr>] =
     \<lparr> buffer = replicate 20 1 @ replicate 12 2, size_rb = 32, currPosition = 40,
       tempoPosition = 0, blockIdx = None, timeIdx = None \<rparr>"
  by (simp add: NewRingBuffer_def maxAlloc_def run_def step_def Add_def Len_def int64_def go_rem_def
      copy_at_def copy_into_def)

text \<open>
  The sibling \<^verbatim>\<open>write\<close> of the second draft reduces the sum: its cursor stays inside
  the region.
\<close>

lemma go_rem_nonneg: "0 \<le> a \<Longrightarrow> 0 < b \<Longrightarrow> go_rem a b = Some (a mod b)"
  by (simp add: go_rem_def sgn_if)

lemma write_rb_cursor_in_range:
  assumes "0 \<le> currPosition r" "currPosition r < size_rb r"
  shows "0 \<le> currPosition (snd (write_rb r d)) \<and>
         currPosition (snd (write_rb r d)) < size_rb r"
proof -
  have "go_rem (currPosition r + (int (length d) + BlockHeaderLenSize)) (size_rb r) =
      Some ((currPosition r + (int (length d) + BlockHeaderLenSize)) mod size_rb r)"
    using assms by (intro go_rem_nonneg) (simp_all add: BlockHeaderLenSize_def)
  then show ?thesis
    using assms by (simp add: write_rb_def Let_def split: option.split)
qed

lemma Write_cursor_in_range:
  assumes "0 \<le> currPosition r" "currPosition r < size_rb r"
  shows "0 \<le> currPosition (snd (Write r d)) \<and> currPosition (snd (Write r d)) < size_rb r"
proof (cases rule: Write_cases [of r d])
  case rejected
  with assms show ?thesis by simp
next
  case (header_failed n1 e r1)
  with write_rb_cursor_in_range [OF assms, of "PutUint64 (word_of_int (int (length d)))"]
  show ?thesis by simp
next
  case (payload_failed n1 r1 n2 e r2)
  from write_rb_cursor_in_range [OF assms, of "PutUint64 (word_of_int (int (length d)))"]
    write_rb_size [of r "PutUint64 (word_of_int (int (length d)))"] payload_failed
  have "0 \<le> currPosition r1" "currPosition r1 < size_rb r1" "size_rb r1 = size_rb r"
    by simp_all
  with write_rb_cursor_in_range [of r1 d] payload_failed show ?thesis by simp
next
  case (written n1 r1 n2 r2)
  from write_rb_cursor_in_range [OF assms, of "PutUint64 (word_of_int (int (length d)))"]
    write_rb_size [of r "PutUint64 (word_of_int (int (length d)))"] written
  have "0 \<le> currPosition r1" "currPosition r1 < size_rb r1" "size_rb r1 = size_rb r"
    by simp_all
  with write_rb_cursor_in_range [of r1 d] written show ?thesis by simp
qed

section \<open>Stores smaller than two headers\<close>

text \<open>
  C4 holds of \<^verbatim>\<open>Add\<close> (\<open>Add_insufficient_iff\<close>) and fails on \<^verbatim>\<open>Write\<close>.  On a store of 10
  bytes the empty payload has a frame of 8 bytes, which fits, and \<^verbatim>\<open>Write\<close> still
  answers \<open>InsufficientBufferSpace\<close>: the header is handed to \<^verbatim>\<open>write\<close>, which adds
  \<open>BlockHeaderLenSize\<close> to its length again and rejects 16 bytes.
\<close>

theorem Write_rejects_frame_that_fits:
  "NewRingBuffer 10 =
     Inr \<lparr> buffer = replicate 10 0, size_rb = 10, currPosition = 0, tempoPosition = 0,
           blockIdx = None, timeIdx = None \<rparr> \<and>
   int (length ([] :: byte list)) + BlockHeaderLenSize = 8 \<and>
   Write \<lparr> buffer = replicate 10 0, size_rb = 10, currPosition = 0, tempoPosition = 0,
           blockIdx = None, timeIdx = None \<rparr> [] =
     ((0, Some InsufficientBufferSpace),
      \<lparr> buffer = replicate 10 0, size_rb = 10, currPosition = 0, tempoPosition = 0,
        blockIdx = None, timeIdx = None \<rparr>)"
  by (simp add: NewRingBuffer_def maxAlloc_def Write_def write_rb_def BlockHeaderLenSize_def
      length_PutUint64)

section \<open>What a successful write stores\<close>

lemma nth_copy_into:
  assumes "off \<le> length dst" "i < length dst"
  shows "copy_into dst off src ! i =
     (if off \<le> i \<and> i < off + length src then src ! (i - off) else dst ! i)"
proof -
  consider "i < off" | "off \<le> i" "i < off + length src" | "off + length src \<le> i"
    by linarith
  then show ?thesis
  proof cases
    case 1
    with assms show ?thesis by (simp add: copy_into_def nth_append)
  next
    case 2
    with assms have "i - off < length src" "i - off < length dst - off" by simp_all
    with 2 assms show ?thesis by (simp add: copy_into_def nth_append)
  next
    case 3
    with assms have a: "length src \<le> length dst - off" "\<not> i - off < length src"
      "\<not> i < off" "off + length src + (i - off - length src) = i"
      by simp_all
    have "copy_into dst off src ! i = drop (off + length src) dst ! (i - off - length src)"
      using assms a by (simp add: copy_into_def nth_append min_def)
    also have "\<dots> = dst ! i"
      using assms 3 a by simp
    finally show ?thesis using 3 by simp
  qed
qed

text \<open>
  The distance of a position \<open>i\<close> behind the cursor \<open>c\<close>, going round the region of
  \<open>s\<close> bytes.
\<close>

lemma ring_distance:
  fixes s :: int
  assumes "0 \<le> c" "c < s" "0 \<le> i" "i < s"
  shows "(i - c) mod s = (if c \<le> i then i - c else i - c + s)"
proof (cases "c \<le> i")
  case True
  with assms show ?thesis by simp
next
  case False
  with assms have "(i - c + s) mod s = i - c + s" by (intro mod_pos_pos_trivial) simp_all
  with False show ?thesis by simp
qed

text \<open>The three ways through \<^verbatim>\<open>write\<close> for data that leaves a byte of the region free.\<close>

lemma write_rb_contiguous:
  assumes sz: "size_rb r = int (length (buffer r))" and c0: "0 \<le> currPosition r"
    and fits: "currPosition r + int (length d) + 8 < size_rb r"
  shows "write_rb r d =
     ((int (length d) + 8, None),
      r\<lparr>buffer := copy_into (buffer r) (nat (currPosition r)) d,
        currPosition := currPosition r + int (length d) + 8\<rparr>)"
proof -
  have t: "go_rem (currPosition r + (int (length d) + 8)) (size_rb r) =
      Some (currPosition r + int (length d) + 8)"
    using c0 fits go_rem_nonneg [of "currPosition r + (int (length d) + 8)" "size_rb r"]
    by (simp add: add.assoc)
  have c: "copy_at (buffer r) (currPosition r) (Some d) =
      Some (copy_into (buffer r) (nat (currPosition r)) d)"
    using sz c0 fits by (simp add: copy_at_def)
  show ?thesis
    using c0 fits by (simp add: write_rb_def Let_def BlockHeaderLenSize_def t c)
qed

lemma write_rb_split:
  assumes sz: "size_rb r = int (length (buffer r))" and c0: "0 \<le> currPosition r"
    and c1: "currPosition r < size_rb r"
    and room: "int (length d) + 8 < size_rb r"
    and wraps: "size_rb r \<le> currPosition r + int (length d) + 8"
    and cut: "size_rb r - currPosition r \<le> int (length d)"
  shows "write_rb r d =
     ((int (length d) + 8, None),
      r\<lparr>buffer := copy_into
          (copy_into (buffer r) (nat (currPosition r))
             (take (nat (size_rb r - currPosition r)) d))
          0 (drop (nat (size_rb r - currPosition r)) d),
        currPosition := currPosition r + int (length d) + 8 - size_rb r\<rparr>)"
proof -
  let ?a = "currPosition r + (int (length d) + 8)"
  have "?a mod size_rb r = (?a - size_rb r) mod size_rb r" by simp
  also have "\<dots> = ?a - size_rb r"
    using c0 c1 room wraps by (intro mod_pos_pos_trivial) simp_all
  finally have t: "go_rem ?a (size_rb r) = Some (?a - size_rb r)"
    using c0 c1 go_rem_nonneg [of ?a "size_rb r"] by simp
  have lt: "?a - size_rb r < currPosition r" using room by simp
  have s1: "slice_to d (size_rb r - currPosition r) =
      Some (take (nat (size_rb r - currPosition r)) d)"
    using c1 cut by (simp add: slice_to_def)
  have s2: "slice_from d (size_rb r - currPosition r) =
      Some (drop (nat (size_rb r - currPosition r)) d)"
    using c1 cut by (simp add: slice_from_def)
  have k1: "copy_at (buffer r) (currPosition r)
        (Some (take (nat (size_rb r - currPosition r)) d)) =
      Some (copy_into (buffer r) (nat (currPosition r))
        (take (nat (size_rb r - currPosition r)) d))"
    using sz c0 c1 by (simp add: copy_at_def)
  have k2: "copy_at (copy_into (buffer r) (nat (currPosition r))
          (take (nat (size_rb r - currPosition r)) d)) 0
        (Some (drop (nat (size_rb r - currPosition r)) d)) =
      Some (copy_into (copy_into (buffer r) (nat (currPosition r))
          (take (nat (size_rb r - currPosition r)) d)) 0
        (drop (nat (size_rb r - currPosition r)) d))"
    by (simp add: copy_at_def)
  show ?thesis
    using room lt by (simp add: write_rb_def Let_def BlockHeaderLenSize_def t s1 s2 k1 k2 add.assoc)
qed

lemma write_rb_split_panics:
  assumes c0: "0 \<le> currPosition r" and c1: "currPosition r < size_rb r"
    and room: "int (length d) + 8 < size_rb r"
    and wraps: "size_rb r \<le> currPosition r + int (length d) + 8"
    and cut: "int (length d) < size_rb r - currPosition r"
  shows "write_rb r d = ((0, Some RuntimePanic), r)"
proof -
  let ?a = "currPosition r + (int (length d) + 8)"
  have "?a mod size_rb r = (?a - size_rb r) mod size_rb r" by simp
  also have "\<dots> = ?a - size_rb r"
    using c0 c1 room wraps by (intro mod_pos_pos_trivial) simp_all
  finally have t: "go_rem ?a (size_rb r) = Some (?a - size_rb r)"
    using c0 c1 go_rem_nonneg [of ?a "size_rb r"] by simp
  have lt: "?a - size_rb r < currPosition r" using room by simp
  have s1: "slice_to d (size_rb r - currPosition r) = None"
    using cut by (simp add: slice_to_def)
  have k1: "copy_at (buffer r) (currPosition r) None = None"
    by (simp add: copy_at_def)
  show ?thesis
    using room lt by (simp add: write_rb_def Let_def BlockHeaderLenSize_def t s1 k1)
qed

lemma write_rb_written:
  assumes sz: "size_rb r = int (length (buffer r))" and c0: "0 \<le> currPosition r"
    and c1: "currPosition r < size_rb r"
    and ok: "write_rb r d = ((n, None), r')"
  shows "n = int (length d) + 8 \<and> size_rb r' = size_rb r \<and>
         length (buffer r') = length (buffer r) \<and>
         currPosition r' = (currPosition r + int (length d) + 8) mod size_rb r"
proof -
  have t: "go_rem (currPosition r + (int (length d) + 8)) (size_rb r) =
      Some ((currPosition r + (int (length d) + 8)) mod size_rb r)"
    using c0 c1 by (intro go_rem_nonneg) simp_all
  show ?thesis
    using ok t
    by (auto simp: write_rb_def Let_def BlockHeaderLenSize_def add.assoc
        split: if_splits option.splits dest: copy_at_length)
      (metis copy_at_length)
qed

text \<open>
  After a successful \<^verbatim>\<open>write\<close> of data that leaves a byte of the region free, the
  positions at distance less than \<open>length d\<close> behind the old cursor hold the data and
  all others hold what they held.
\<close>

lemma write_rb_contents:
  assumes sz: "size_rb r = int (length (buffer r))" and c0: "0 \<le> currPosition r"
    and c1: "currPosition r < size_rb r"
    and ok: "write_rb r d = ((n, None), r')"
    and room: "int (length d) + 8 < size_rb r"
    and i: "i < length (buffer r)"
  shows "buffer r' ! i =
     (if (int i - currPosition r) mod size_rb r < int (length d)
      then d ! nat ((int i - currPosition r) mod size_rb r) else buffer r ! i)"
proof -
  obtain c where c: "currPosition r = int c" using c0 by (metis nonneg_int_cases)
  let ?L = "length (buffer r)"
  let ?k = "length d"
  have cL: "c < ?L" using c1 c sz by simp
  have kL: "?k + 8 < ?L" using room sz by simp
  let ?d = "if c \<le> i then i - c else i + ?L - c"
  have dist: "(int i - currPosition r) mod size_rb r = int ?d"
    using ring_distance [of "int c" "int ?L" "int i"] cL i c sz by simp
  have g: "(int ?d < int ?k) = (?d < ?k)" "nat (int ?d) = ?d" by simp_all
  consider (contig) "c + ?k + 8 < ?L"
    | (split) "?L \<le> c + ?k + 8" "?L - c \<le> ?k"
    | (panic) "?L \<le> c + ?k + 8" "?k < ?L - c"
    by linarith
  then show ?thesis
  proof cases
    case contig
    have "currPosition r + int ?k + 8 < size_rb r" using contig c sz by simp
    from write_rb_contiguous [OF sz c0 this] ok
    have b: "buffer r' = copy_into (buffer r) c d" using c by simp
    show ?thesis
      unfolding dist g using contig cL i by (auto simp: b nth_copy_into)
  next
    case split
    have w: "size_rb r \<le> currPosition r + int ?k + 8" using split c sz by simp
    have u: "size_rb r - currPosition r \<le> int ?k" using split c sz cL by simp
    have e: "nat (size_rb r - currPosition r) = ?L - c" using c sz by simp
    from write_rb_split [OF sz c0 c1 room w u] ok
    have b: "buffer r' = copy_into (copy_into (buffer r) c (take (?L - c) d)) 0
        (drop (?L - c) d)" using c e by simp
    have l1: "length (copy_into (buffer r) c (take (?L - c) d)) = ?L"
      by (simp add: length_copy_into)
    have n2: "buffer r' ! i =
        (if i < ?k - (?L - c) then d ! (?L - c + i)
         else copy_into (buffer r) c (take (?L - c) d) ! i)"
      using i l1 split
      by (simp add: b nth_copy_into [of 0 "copy_into (buffer r) c (take (?L - c) d)" i])
    have n1: "copy_into (buffer r) c (take (?L - c) d) ! i =
        (if c \<le> i then d ! (i - c) else buffer r ! i)"
      using i cL split by (simp add: nth_copy_into [of c "buffer r" i] min_def)
    show ?thesis
    proof (cases "c \<le> i")
      case True
      with split kL i have "\<not> i < ?k - (?L - c)" "i - c < ?k" by simp_all
      with True show ?thesis unfolding dist g by (simp add: n2 n1)
    next
      case False
      then have "(i + ?L - c < ?k) = (i < ?k - (?L - c))" using cL split by linarith
      moreover have "?L - c + i = i + ?L - c" using cL by simp
      ultimately show ?thesis unfolding dist g using False by (simp add: n2 n1)
    qed
  next
    case panic
    have w: "size_rb r \<le> currPosition r + int ?k + 8" using panic c sz by simp
    have u: "int ?k < size_rb r - currPosition r" using panic c sz cL by simp
    from write_rb_split_panics [OF c0 c1 room w u] ok show ?thesis by simp
  qed
qed

text \<open>The result, the cursor and the region after a successful \<^verbatim>\<open>Write\<close>.\<close>

lemma Write_written:
  assumes sz: "size_rb r = int (length (buffer r))" and c0: "0 \<le> currPosition r"
    and c1: "currPosition r < size_rb r"
    and ok: "Write r b = ((n, None), r')"
  obtains n1 r1 n2 where
    "write_rb r (PutUint64 (word_of_int (int (length b)))) = ((n1, None), r1)"
    "write_rb r1 b = ((n2, None), r')"
    "size_rb r1 = int (length (buffer r1))" "0 \<le> currPosition r1"
    "currPosition r1 < size_rb r1" "size_rb r1 = size_rb r"
    "length (buffer r1) = length (buffer r)"
    "currPosition r1 = (currPosition r + 16) mod size_rb r"
    "n = int (length b) + 8"
proof (cases rule: Write_cases [of r b])
  case rejected
  with ok show ?thesis by simp
next
  case (header_failed n1 e r1)
  with ok show ?thesis by simp
next
  case (payload_failed n1 r1 n2 e r2)
  with ok show ?thesis by simp
next
  case (written n1 r1 n2 r2)
  with ok have r2: "r2 = r'" and n: "n = int (length b) + 8"
    by (simp_all add: BlockHeaderLenSize_def)
  from write_rb_written [OF sz c0 c1 written(2)]
  have h: "size_rb r1 = size_rb r" "length (buffer r1) = length (buffer r)"
    "currPosition r1 = (currPosition r + 16) mod size_rb r"
    by (simp_all add: length_PutUint64 add.commute)
  have pos: "0 < size_rb r" using c0 c1 by simp
  have "0 \<le> currPosition r1" "currPosition r1 < size_rb r1"
    using h pos by simp_all
  moreover have "size_rb r1 = int (length (buffer r1))" using h sz by simp
  ultimately show ?thesis using that [of n1 r1 n2] written(2,3) h n r2 by simp
qed

lemma Write_cursor:
  assumes sz: "size_rb r = int (length (buffer r))" and c0: "0 \<le> currPosition r"
    and c1: "currPosition r < size_rb r"
    and ok: "Write r b = ((n, None), r')"
  shows "n = int (length b) + 8 \<and> size_rb r' = size_rb r \<and>
         length (buffer r') = length (buffer r) \<and>
         currPosition r' = (currPosition r + int (length b) + 24) mod size_rb r"
proof -
  from sz c0 c1 ok obtain n1 r1 n2 where
    w1: "write_rb r (PutUint64 (word_of_int (int (length b)))) = ((n1, None), r1)" and
    w2: "write_rb r1 b = ((n2, None), r')" and
    i1: "size_rb r1 = int (length (buffer r1))" "0 \<le> currPosition r1"
      "currPosition r1 < size_rb r1" and
    h: "size_rb r1 = size_rb r" "length (buffer r1) = length (buffer r)"
      "currPosition r1 = (currPosition r + 16) mod size_rb r" and
    n: "n = int (length b) + 8"
    by (rule Write_written)
  from write_rb_written [OF i1 w2]
  have p: "size_rb r' = size_rb r1" "length (buffer r') = length (buffer r1)"
    "currPosition r' = (currPosition r1 + int (length b) + 8) mod size_rb r1"
    by simp_all
  have a: "(currPosition r + 16) mod size_rb r + int (length b) + 8 =
      (currPosition r + 16) mod size_rb r + (int (length b) + 8)" by simp
  have b: "currPosition r + 16 + (int (length b) + 8) = currPosition r + int (length b) + 24"
    by simp
  have "((currPosition r + 16) mod size_rb r + int (length b) + 8) mod size_rb r =
      (currPosition r + int (length b) + 24) mod size_rb r"
    using mod_add_left_eq [of "currPosition r + 16" "size_rb r" "int (length b) + 8"]
    by (simp only: a b)
  then have "currPosition r' = (currPosition r + int (length b) + 24) mod size_rb r"
    using p(3) h(1,3) by (simp only:)
  with p(1,2) h(1,2) n show ?thesis by simp
qed

lemma Write_contents:
  assumes sz: "size_rb r = int (length (buffer r))" and c0: "0 \<le> currPosition r"
    and c1: "currPosition r < size_rb r"
    and ok: "Write r b = ((n, None), r')"
    and room: "int (length b) + 24 \<le> size_rb r"
    and i: "i < length (buffer r)"
  shows "buffer r' ! i =
     (if (int i - currPosition r) mod size_rb r < 8
      then PutUint64 (word_of_int (int (length b))) ! nat ((int i - currPosition r) mod size_rb r)
      else if 16 \<le> (int i - currPosition r) mod size_rb r \<and>
              (int i - currPosition r) mod size_rb r < 16 + int (length b)
      then b ! nat ((int i - currPosition r) mod size_rb r - 16)
      else buffer r ! i)"
proof -
  let ?h = "PutUint64 (word_of_int (int (length b)))"
  let ?s = "size_rb r"
  let ?D = "(int i - currPosition r) mod ?s"
  from sz c0 c1 ok obtain n1 r1 n2 where
    w1: "write_rb r ?h = ((n1, None), r1)" and
    w2: "write_rb r1 b = ((n2, None), r')" and
    i1: "size_rb r1 = int (length (buffer r1))" "0 \<le> currPosition r1"
      "currPosition r1 < size_rb r1" and
    h: "size_rb r1 = size_rb r" "length (buffer r1) = length (buffer r)"
      "currPosition r1 = (currPosition r + 16) mod size_rb r"
    by (rule Write_written)
  have pos: "0 < ?s" using c0 c1 by simp
  have D: "0 \<le> ?D" "?D < ?s" using pos by simp_all
  have room1: "int (length ?h) + 8 < ?s" using room by (simp add: length_PutUint64)
  have room2: "int (length b) + 8 < size_rb r1" using room h by simp
  have i': "i < length (buffer r1)" using i h by simp
  have first: "buffer r1 ! i = (if ?D < 8 then ?h ! nat ?D else buffer r ! i)"
    using write_rb_contents [OF sz c0 c1 w1 room1 i] by (simp add: length_PutUint64)
  have "(int i - currPosition r1) mod size_rb r1 = (int i - (currPosition r + 16)) mod ?s"
    using h by (simp add: mod_diff_right_eq)
  also have "\<dots> = (int i - currPosition r - 16) mod ?s" by (simp add: algebra_simps)
  also have "\<dots> = (?D - 16) mod ?s" by (simp add: mod_diff_left_eq)
  finally have d1: "(int i - currPosition r1) mod size_rb r1 = (?D - 16) mod ?s" .
  have second: "buffer r' ! i =
      (if (?D - 16) mod ?s < int (length b) then b ! nat ((?D - 16) mod ?s)
       else buffer r1 ! i)"
    using write_rb_contents [OF i1 w2 room2 i'] by (simp only: d1)
  show ?thesis
  proof (cases "16 \<le> ?D")
    case True
    have a: "0 \<le> ?D - 16" using True by linarith
    have b: "?D - 16 < ?s" using D by linarith
    have "(?D - 16) mod ?s = ?D - 16" using a b by (rule mod_pos_pos_trivial)
    with True show ?thesis by (simp add: second first)
  next
    case False
    have a: "0 \<le> ?D - 16 + ?s" using D room by linarith
    have b: "?D - 16 + ?s < ?s" using False by linarith
    have "(?D - 16 + ?s) mod ?s = ?D - 16 + ?s" using a b by (rule mod_pos_pos_trivial)
    then have e: "(?D - 16) mod ?s = ?D - 16 + ?s" by simp
    have "\<not> ?D - 16 + ?s < int (length b)" using D room by linarith
    with False show ?thesis by (simp add: second first e)
  qed
qed

section \<open>The header-framing write path\<close>

text \<open>
  C3 (as amended).  On a store whose size is the length of its region and whose cursor
  is inside it, every successful \<^verbatim>\<open>Write(b)\<close> reports \<open>len(b) + 8\<close> bytes and moves the
  cursor by \<open>len(b) + 24\<close> modulo the size, never changing the length of the region.
  When the three header lengths fit, \<open>len(b) + 24 \<le> size\<close>, exactly \<open>8 + len(b)\<close> positions
  are written: the 8 positions from the old cursor hold the header, the \<open>len(b)\<close>
  positions that start 16 behind it hold the payload, and every other position keeps
  its byte, among them the two ranges of 8 positions at distances \<open>[8, 16)\<close> and
  \<open>[16 + len(b), 24 + len(b))\<close> that the two calls of \<^verbatim>\<open>write\<close> skip.
\<close>

theorem Write_skips_two_headers:
  assumes "size_rb r = int (length (buffer r))" "0 \<le> currPosition r"
    "currPosition r < size_rb r" "Write r b = ((n, None), r')"
  shows "n = int (length b) + BlockHeaderLenSize \<and>
         currPosition r' =
           (currPosition r + int (length b) + 3 * BlockHeaderLenSize) mod size_rb r \<and>
         length (buffer r') = length (buffer r) \<and>
         (int (length b) + 3 * BlockHeaderLenSize \<le> size_rb r \<longrightarrow>
            (\<forall>i < length (buffer r).
               buffer r' ! i =
                 (if behind_cursor r i < 8
                  then PutUint64 (word_of_int (int (length b))) ! nat (behind_cursor r i)
                  else if 16 \<le> behind_cursor r i \<and> behind_cursor r i < 16 + int (length b)
                  then b ! nat (behind_cursor r i - 16)
                  else buffer r ! i)))"
proof -
  from Write_cursor [OF assms]
  have "n = int (length b) + BlockHeaderLenSize"
    "currPosition r' =
       (currPosition r + int (length b) + 3 * BlockHeaderLenSize) mod size_rb r"
    "length (buffer r') = length (buffer r)"
    by (simp_all add: BlockHeaderLenSize_def)
  moreover have "int (length b) + 3 * BlockHeaderLenSize \<le> size_rb r \<longrightarrow>
      (\<forall>i < length (buffer r).
         buffer r' ! i =
           (if behind_cursor r i < 8
            then PutUint64 (word_of_int (int (length b))) ! nat (behind_cursor r i)
            else if 16 \<le> behind_cursor r i \<and> behind_cursor r i < 16 + int (length b)
            then b ! nat (behind_cursor r i - 16)
            else buffer r ! i))"
  proof (intro impI allI)
    fix i
    assume "int (length b) + 3 * BlockHeaderLenSize \<le> size_rb r" "i < length (buffer r)"
    then have "int (length b) + 24 \<le> size_rb r" "i < length (buffer r)"
      by (simp_all add: BlockHeaderLenSize_def)
    from Write_contents [OF assms this]
    show "buffer r' ! i =
           (if behind_cursor r i < 8
            then PutUint64 (word_of_int (int (length b))) ! nat (behind_cursor r i)
            else if 16 \<le> behind_cursor r i \<and> behind_cursor r i < 16 + int (length b)
            then b ! nat (behind_cursor r i - 16)
            else buffer r ! i)"
      by (simp only: behind_cursor_def)
  qed
  ultimately show ?thesis by blast
qed

theorem Write_skips_two_headers_witness:
  "size_rb \<lparr> buffer = replicate 32 0, size_rb = 32, currPosition = 0, tempoPosition = 0,
             blockIdx = None, timeIdx = None \<rparr> =
     int (length (buffer \<lparr> buffer = replicate 32 0, size_rb = 32, currPosition = 0,
             tempoPosition = 0, blockIdx = None, timeIdx = None \<rparr>)) \<and>
   0 \<le> currPosition \<lparr> buffer = replicate 32 0, size_rb = 32, currPosition = 0,
             tempoPosition = 0, blockIdx = None, timeIdx = None \<rparr> \<and>
   currPosition \<lparr> buffer = replicate 32 0, size_rb = 32, currPosition = 0,
             tempoPosition = 0, blockIdx = None, timeIdx = None \<rparr>
     < size_rb \<lparr> buffer = replicate 32 0, size_rb = 32, currPosition = 0,
             tempoPosition = 0, blockIdx = None, timeIdx = None \<rparr> \<and>
   Write \<lparr> buffer = replicate 32 0, size_rb = 32, currPosition = 0, tempoPosition = 0,
           blockIdx = None, timeIdx = None \<rparr> [7, 7, 7] =
     ((11, None),
      \<lparr> buffer = [3, 0, 0, 0, 0, 0, 0, 0] @ replicate 8 0 @ [7, 7, 7] @ replicate 13 0,
        size_rb = 32, currPosition = 27, tempoPosition = 0, blockIdx = None,
        timeIdx = None \<rparr>) \<and>
   int (length [7 :: byte, 7, 7]) + 3 * BlockHeaderLenSize
     \<le> size_rb \<lparr> buffer = replicate 32 0, size_rb = 32, currPosition = 0,
             tempoPosition = 0, blockIdx = None, timeIdx = None \<rparr> \<and>
   (11 :: int) = int (length [7 :: byte, 7, 7]) + BlockHeaderLenSize \<and>
   (27 :: int) = (0 + int (length [7 :: byte, 7, 7]) + 3 * BlockHeaderLenSize) mod 32 \<and>
   ([3, 0, 0, 0, 0, 0, 0, 0] @ replicate 8 0 @ [7, 7, 7] @ replicate 13 (0 :: byte)) ! 17 =
     [7, 7, 7] ! 1 \<and>
   ([3, 0, 0, 0, 0, 0, 0, 0] @ replicate 8 0 @ [7, 7, 7] @ replicate 13 (0 :: byte)) ! 9 =
     replicate 32 0 ! 9"
proof -
  let ?R = "\<lparr> buffer = replicate 32 0, size_rb = 32, currPosition = 0, tempoPosition = 0,
              blockIdx = None, timeIdx = None \<rparr>"
  let ?R' = "\<lparr> buffer = [3, 0, 0, 0, 0, 0, 0, 0] @ replicate 8 0 @ [7, 7, 7] @ replicate 13 0,
        size_rb = 32, currPosition = 27, tempoPosition = 0, blockIdx = None,
        timeIdx = None \<rparr>"
  have h: "size_rb ?R = int (length (buffer ?R))" "0 \<le> currPosition ?R"
    "currPosition ?R < size_rb ?R"
    by simp_all
  have w: "Write ?R [7, 7, 7] = ((11, None), ?R')"
    by (simp add: Write_def write_rb_def BlockHeaderLenSize_def PutUint64_def upt_0_8
        go_rem_def copy_at_def copy_into_def)
  have room: "int (length [7 :: byte, 7, 7]) + 3 * BlockHeaderLenSize \<le> size_rb ?R"
    by (simp add: BlockHeaderLenSize_def)
  from Write_skips_two_headers [OF h w]
  have "(11 :: int) = int (length [7 :: byte, 7, 7]) + BlockHeaderLenSize"
    "currPosition ?R' =
       (currPosition ?R + int (length [7 :: byte, 7, 7]) + 3 * BlockHeaderLenSize) mod
       size_rb ?R"
    by blast+
  then have a: "(11 :: int) = int (length [7 :: byte, 7, 7]) + BlockHeaderLenSize"
    "(27 :: int) = (0 + int (length [7 :: byte, 7, 7]) + 3 * BlockHeaderLenSize) mod 32"
    by simp_all
  from Write_skips_two_headers [OF h w] room
  have all: "\<forall>i < length (buffer ?R).
      buffer ?R' ! i =
        (if behind_cursor ?R i < 8
         then PutUint64 (word_of_int (int (length [7 :: byte, 7, 7]))) ! nat (behind_cursor ?R i)
         else if 16 \<le> behind_cursor ?R i \<and>
                 behind_cursor ?R i < 16 + int (length [7 :: byte, 7, 7])
         then [7, 7, 7] ! nat (behind_cursor ?R i - 16)
         else buffer ?R ! i)"
    by blast
  have b: "buffer ?R' ! 17 = [7 :: byte, 7, 7] ! 1"
    using all [rule_format, of 17] by (simp add: behind_cursor_def)
  have c: "buffer ?R' ! 9 = buffer ?R ! 9"
    using all [rule_format, of 9] by (simp add: behind_cursor_def)
  from b c have "([3, 0, 0, 0, 0, 0, 0, 0] @ replicate 8 0 @ [7, 7, 7] @
        replicate 13 (0 :: byte)) ! 17 = [7, 7, 7] ! 1"
    "([3, 0, 0, 0, 0, 0, 0, 0] @ replicate 8 0 @ [7, 7, 7] @ replicate 13 (0 :: byte)) ! 9 =
       replicate 32 0 ! 9"
    by simp_all
  with h w room a show ?thesis by blast
qed

text \<open>
  C3 as the claim states it fails for a frame that fills the region.  On a fresh store
  of 32 bytes \<^verbatim>\<open>Write\<close> of 24 bytes succeeds and reports 32, and the cursor moves to
  \<open>(0 + 24 + 24) mod 32 = 16\<close>; but the payload's \<^verbatim>\<open>write\<close> finds its target position equal
  to the cursor, takes the branch that does not split, and copies only the 16 bytes
  that fit behind position 16.  8 + 16 = 24 bytes are copied, not 8 + 24 = 32: the bytes
  17 to 24 of the payload are nowhere in the region.
\<close>

theorem Write_full_frame_cut_short:
  "NewRingBuffer 32 =
     Inr \<lparr> buffer = replicate 32 0, size_rb = 32, currPosition = 0, tempoPosition = 0,
           blockIdx = None, timeIdx = None \<rparr> \<and>
   Write \<lparr> buffer = replicate 32 0, size_rb = 32, currPosition = 0, tempoPosition = 0,
           blockIdx = None, timeIdx = None \<rparr>
     [1, 2, 3, 4, 5, 6, 7, 8, 9, 10, 11, 12, 13, 14, 15, 16, 17, 18, 19, 20, 21, 22, 23, 24] =
     ((32, None),
      \<lparr> buffer = [24, 0, 0, 0, 0, 0, 0, 0] @ replicate 8 0 @
                 [1, 2, 3, 4, 5, 6, 7, 8, 9, 10, 11, 12, 13, 14, 15, 16],
        size_rb = 32, currPosition = 16, tempoPosition = 0, blockIdx = None,
        timeIdx = None \<rparr>)"
  by (simp add: NewRingBuffer_def maxAlloc_def Write_def write_rb_def BlockHeaderLenSize_def
      PutUint64_def
      upt_0_8 go_rem_def copy_at_def copy_into_def)

section \<open>What is stored for a record\<close>













end
